theory Spec2Isabelle
  imports Complex_Main
begin

section \<open>Python values used by redditsentiment.py\<close>

text \<open>
  Strings are lists of characters. A \<^typ>\<open>char\<close> is read as a code point below 256
  (Latin-1), the part of Python's \<open>str\<close> that an 8-bit character can hold;
  \<open>str.lower\<close> and \<open>str.strip\<close> are modelled on that range.
\<close>

definition lower_chr :: "char \<Rightarrow> char" where
  "lower_chr c =
     (let n = (of_char c :: nat)
      in if (65 \<le> n \<and> n \<le> 90) \<or> (192 \<le> n \<and> n \<le> 222 \<and> n \<noteq> 215)
         then char_of (n + 32) else c)"

definition lower :: "string \<Rightarrow> string" where
  "lower s = map lower_chr s"

definition isspace_chr :: "char \<Rightarrow> bool" where
  "isspace_chr c =
     (let n = (of_char c :: nat)
      in (9 \<le> n \<and> n \<le> 13) \<or> (28 \<le> n \<and> n \<le> 32) \<or> n = 133 \<or> n = 160)"

definition strip :: "string \<Rightarrow> string" where
  "strip s = rev (dropWhile isspace_chr (rev (dropWhile isspace_chr s)))"

text \<open>\<open>s.split(",")\<close>: the pieces between separators, empty pieces included.\<close>

fun split :: "char \<Rightarrow> string \<Rightarrow> string list" where
  "split d [] = [[]]"
| "split d (c # cs) =
     (if c = d then [] # split d cs
      else (case split d cs of
              [] \<Rightarrow> [[c]]
            | w # ws \<Rightarrow> (c # w) # ws))"

text \<open>\<open>k in t\<close> on strings: \<open>k\<close> occurs in \<open>t\<close> as a contiguous run.\<close>

fun startswith :: "string \<Rightarrow> string \<Rightarrow> bool" where
  "startswith t [] = True"
| "startswith [] (k # ks) = False"
| "startswith (c # t) (k # ks) = (c = k \<and> startswith t ks)"

fun str_in :: "string \<Rightarrow> string \<Rightarrow> bool" where
  "str_in k [] = (k = [])"
| "str_in k (c # t) = (startswith (c # t) k \<or> str_in k t)"

text \<open>
  A value of a table cell that the script passes to \<open>str\<close>: a string, \<open>None\<close>, an
  integer, or the float \<open>nan\<close> that pandas stores for a missing cell.
\<close>

datatype pyval = PStr string | PNone | PInt int | PNaN

definition digit_chr :: "nat \<Rightarrow> char" where
  "digit_chr n = char_of (48 + n mod 10)"

fun str_nat :: "nat \<Rightarrow> string" where
  "str_nat n = (if n < 10 then [digit_chr n] else str_nat (n div 10) @ [digit_chr n])"

declare str_nat.simps [simp del]

definition str_int :: "int \<Rightarrow> string" where
  "str_int i = (if i < 0 then CHR ''-'' # str_nat (nat (- i)) else str_nat (nat i))"

fun py_str :: "pyval \<Rightarrow> string" where
  "py_str (PStr s) = s"
| "py_str PNone = ''None''"
| "py_str (PInt i) = str_int i"
| "py_str PNaN = ''nan''"

text \<open>An exception, with the text that \<open>str(e)\<close> gives in a message.\<close>

datatype exn = Exn string

fun exn_text :: "exn \<Rightarrow> string" where
  "exn_text (Exn m) = m"

section \<open>The classifier (lines 106--112)\<close>

text \<open>
  The compound score is a Python float; it is modelled by the real number it denotes,
  and the literal \<open>0.05\<close> by the real \<open>5/100\<close>. No float lies between \<open>5/100\<close> and the
  float nearest to it, so the comparisons decide the same way on every float.
\<close>

definition classify_sentiment :: "real \<Rightarrow> string" where
  "classify_sentiment score =
     (if score \<ge> 0.05 then ''positive''
      else if score \<le> - 0.05 then ''negative''
      else ''neutral'')"

section \<open>The title filter (lines 62--63)\<close>

definition title_matches :: "string list \<Rightarrow> string \<Rightarrow> bool" where
  "title_matches keywords title =
     (let title_lower = lower title
      in list_ex (\<lambda>k. str_in (lower k) title_lower) keywords)"

section \<open>The Reddit client, the scorer and the display, as the script uses them\<close>

text \<open>
  A comment as PRAW hands it over: \<open>comment.body\<close> and \<open>comment.created_utc\<close>.
\<close>

record comment =
  body :: pyval
  created_utc :: real

text \<open>
  The comment forest of a post as the first response carries it, in the order in which
  \<open>list()\<close> walks it: a comment that is loaded, or a \<open>MoreComments\<close> stub, which
  stands for the comments (top-level or nested) that a further request would load in
  its place.
\<close>

datatype item = Loaded comment | MoreComments "comment list"

text \<open>
  A post: \<open>post.title\<close>, \<open>post.url\<close>, and \<open>post.comments\<close>: the forest, or the
  exception raised when it is requested.
\<close>

record post =
  post_title :: string
  post_url :: string
  post_comments :: "exn + item list"

text \<open>
  Lines 65--66: \<open>post.comments.replace_more(limit=0)\<close> followed by
  \<open>post.comments.list()\<close>. With the limit 0 no stub is fetched: every stub is removed
  from the forest, and the list holds the loaded comments only.
\<close>

fun replace_more_0 :: "item list \<Rightarrow> comment list" where
  "replace_more_0 [] = []"
| "replace_more_0 (Loaded c # items) = c # replace_more_0 items"
| "replace_more_0 (MoreComments hidden # items) = replace_more_0 items"

text \<open>
  One entry of \<open>all_data\<close> (lines 67--73); \<open>row_text\<close> is its key \<open>text\<close>. The
  datetime is determined by the timestamp, which the row keeps. Reading the attributes
  of a comment and converting its timestamp are taken to succeed: the exceptions of the
  loop are those of the listing request and of the expansion of a post's comments.
\<close>

record row =
  row_text :: pyval
  title :: string
  url :: string
  subreddit :: string
  date :: real

text \<open>The dictionary \<open>polarity_scores\<close> returns, and the table after lines 99--114.\<close>

record scores =
  score_neg :: real
  score_neu :: real
  score_pos :: real
  score_compound :: real

record scored_row = row +
  scores :: scores
  compound :: real
  neg :: real
  neu :: real
  pos :: real
  sentiment :: string

record clock =
  year :: nat
  month :: nat
  day :: nat
  hour :: nat
  minute :: nat

text \<open>What the page shows, and the calls made on the Reddit client and the scorer.\<close>

datatype ui_event =
    StError string
  | StInfo string
  | StSuccess string
  | StWrite string
  | StPyplot string
  | StDownloadButton string "(string \<times> string) list" string string
  | StDataframe "scored_row list"

datatype call =
    PrawReddit string string string
  | SubredditNew string nat
  | ReplaceMore string
  | PolarityScores pyval

text \<open>
  The state a run changes: the page, the directories and files on disk (a file's content
  is its bytes), and the log of external calls.
\<close>

record world =
  ui :: "ui_event list"
  dirs :: "string list"
  files :: "string \<rightharpoonup> string"
  calls :: "call list"

text \<open>
  The behaviour of the libraries and services the script calls, taken as parameters:
  the PRAW constructor (raising or not), the posts of a subreddit newest first (or the
  exception of the listing request), the clock, the VADER scorer (which may raise, as
  it does on an argument that is not a string), and the renderers of pandas and
  matplotlib.
\<close>

record env =
  praw_Reddit :: "string \<Rightarrow> string \<Rightarrow> string \<Rightarrow> exn option"
  subreddit_posts :: "string \<Rightarrow> exn + post list"
  now :: clock
  polarity_scores :: "pyval \<Rightarrow> exn + scores"
  to_csv :: "char \<Rightarrow> row list \<Rightarrow> string"
  to_csv_scored :: "scored_row list \<Rightarrow> string"
  time_plot_png :: "scored_row list \<Rightarrow> string"
  dist_plot_png :: "(string \<times> nat) list \<Rightarrow> string"

text \<open>
  \<open>reddit.subreddit(name).new(limit=n)\<close>: at most the \<open>n\<close> newest posts. A listing
  of 50 posts is one request, so it raises before the first post or not at all.
\<close>

definition new :: "env \<Rightarrow> string \<Rightarrow> nat \<Rightarrow> exn + post list" where
  "new e name limit =
     (case subreddit_posts e name of
        Inl x \<Rightarrow> Inl x
      | Inr ps \<Rightarrow> Inr (take limit ps))"

definition say :: "ui_event \<Rightarrow> world \<Rightarrow> world" where
  "say m w = w\<lparr>ui := ui w @ [m]\<rparr>"

definition called :: "call \<Rightarrow> world \<Rightarrow> world" where
  "called c w = w\<lparr>calls := calls w @ [c]\<rparr>"

section \<open>Collecting the comments (lines 54--75)\<close>

definition mk_row :: "string \<Rightarrow> post \<Rightarrow> comment \<Rightarrow> row" where
  "mk_row subreddit_name p c =
     \<lparr>row_text = body c, title = post_title p, url = post_url p,
      subreddit = subreddit_name, date = created_utc c\<rparr>"

text \<open>
  The inner loop over the posts of one subreddit. It appends to \<open>all_data\<close> as it goes
  and stops at the first exception, which it hands to the \<open>except\<close> clause.
\<close>

fun process_posts ::
  "string list \<Rightarrow> string \<Rightarrow> post list \<Rightarrow> row list \<times> world \<Rightarrow> (row list \<times> world) \<times> exn option"
where
  "process_posts keywords name [] (all_data, w) = ((all_data, w), None)"
| "process_posts keywords name (p # ps) (all_data, w) =
     (if title_matches keywords (post_title p)
      then (case post_comments p of
              Inl x \<Rightarrow> ((all_data, called (ReplaceMore (post_url p)) w), Some x)
            | Inr items \<Rightarrow>
                process_posts keywords name ps
                  (all_data @ map (mk_row name p) (replace_more_0 items),
                   called (ReplaceMore (post_url p)) w))
      else process_posts keywords name ps (all_data, w))"

definition error_processing :: "string \<Rightarrow> exn \<Rightarrow> ui_event" where
  "error_processing name x =
     StWrite (''Error processing subreddit '' @ [CHR 0x27] @ name @ [CHR 0x27] @ '': ''
              @ exn_text x)"

text \<open>The body of the outer loop: the \<open>try\<close> and its \<open>except\<close>.\<close>

definition process_subreddit ::
  "env \<Rightarrow> string list \<Rightarrow> string \<Rightarrow> row list \<times> world \<Rightarrow> row list \<times> world"
where
  "process_subreddit e keywords name st =
     (case st of (all_data, w) \<Rightarrow>
        (case new e name 50 of
           Inl x \<Rightarrow> (all_data, say (error_processing name x) (called (SubredditNew name 50) w))
         | Inr all_posts \<Rightarrow>
             (case process_posts keywords name all_posts
                     (all_data, called (SubredditNew name 50) w) of
                (st', None) \<Rightarrow> st'
              | ((all_data', w'), Some x) \<Rightarrow> (all_data', say (error_processing name x) w'))))"

fun process_subreddits ::
  "env \<Rightarrow> string list \<Rightarrow> string list \<Rightarrow> row list \<times> world \<Rightarrow> row list \<times> world"
where
  "process_subreddits e keywords [] st = st"
| "process_subreddits e keywords (name # names) st =
     process_subreddits e keywords names (process_subreddit e keywords name st)"

text \<open>
  Descriptions of the loop's result, in the words of the specification: the posts the
  filter keeps, a post whose comments could be requested, the comments of a forest
  after full expansion (every stub replaced by the comments it stands for), the number
  of a post's comments after full expansion, and a post whose forest holds no stub.
\<close>

definition kept_posts :: "string list \<Rightarrow> post list \<Rightarrow> post list" where
  "kept_posts keywords ps = filter (\<lambda>p. title_matches keywords (post_title p)) ps"

definition expanded :: "post \<Rightarrow> bool" where
  "expanded p = (case post_comments p of Inl x \<Rightarrow> False | Inr items \<Rightarrow> True)"

fun full_expansion :: "item list \<Rightarrow> comment list" where
  "full_expansion [] = []"
| "full_expansion (Loaded c # items) = c # full_expansion items"
| "full_expansion (MoreComments hidden # items) = hidden @ full_expansion items"

definition comment_count :: "post \<Rightarrow> nat" where
  "comment_count p =
     (case post_comments p of Inl x \<Rightarrow> 0 | Inr items \<Rightarrow> length (full_expansion items))"

fun is_loaded :: "item \<Rightarrow> bool" where
  "is_loaded (Loaded c) = True"
| "is_loaded (MoreComments hidden) = False"

definition fully_loaded :: "post \<Rightarrow> bool" where
  "fully_loaded p =
     (case post_comments p of Inl x \<Rightarrow> True | Inr items \<Rightarrow> list_all is_loaded items)"

text \<open>The rows the loop appends for a post whose title matches.\<close>

definition post_rows :: "string \<Rightarrow> post \<Rightarrow> row list" where
  "post_rows name p =
     (case post_comments p of
        Inl x \<Rightarrow> []
      | Inr items \<Rightarrow> map (mk_row name p) (replace_more_0 items))"

text \<open>The first exception met in a list of kept posts, if any.\<close>

fun first_failure :: "post list \<Rightarrow> exn option" where
  "first_failure [] = None"
| "first_failure (p # ps) =
     (case post_comments p of Inl x \<Rightarrow> Some x | Inr items \<Rightarrow> first_failure ps)"

text \<open>
  The exception raised while a subreddit is processed, if any, and the rows that the
  subreddit contributes: those of the kept posts that come before the first failure.
\<close>

definition subreddit_error :: "env \<Rightarrow> string list \<Rightarrow> string \<Rightarrow> exn option" where
  "subreddit_error e keywords name =
     (case new e name 50 of
        Inl x \<Rightarrow> Some x
      | Inr ps \<Rightarrow> first_failure (kept_posts keywords ps))"

definition subreddit_rows :: "env \<Rightarrow> string list \<Rightarrow> string \<Rightarrow> row list" where
  "subreddit_rows e keywords name =
     (case new e name 50 of
        Inl x \<Rightarrow> []
      | Inr ps \<Rightarrow> concat (map (post_rows name) (takeWhile expanded (kept_posts keywords ps))))"

definition error_reports :: "env \<Rightarrow> string list \<Rightarrow> string list \<Rightarrow> ui_event list" where
  "error_reports e keywords names =
     concat (map (\<lambda>name. case subreddit_error e keywords name of
                            None \<Rightarrow> []
                          | Some x \<Rightarrow> [error_processing name x]) names)"

text \<open>
  The row count the specification states: over the kept posts among the 50 newest of
  each subreddit, the sum of their comment counts.
\<close>

definition expected_row_count :: "env \<Rightarrow> string list \<Rightarrow> string list \<Rightarrow> nat" where
  "expected_row_count e keywords names =
     sum_list (map (\<lambda>name. case new e name 50 of
                              Inl x \<Rightarrow> 0
                            | Inr ps \<Rightarrow> sum_list (map comment_count (kept_posts keywords ps)))
                   names)"

definition no_exception :: "env \<Rightarrow> string list \<Rightarrow> string list \<Rightarrow> bool" where
  "no_exception e keywords names =
     list_all (\<lambda>name. subreddit_error e keywords name = None) names"

text \<open>No kept post among the 50 newest of a listed subreddit has a stub in its forest.\<close>

definition no_stubs :: "env \<Rightarrow> string list \<Rightarrow> string list \<Rightarrow> bool" where
  "no_stubs e keywords names =
     list_all (\<lambda>name. case new e name 50 of
                         Inl x \<Rightarrow> True
                       | Inr ps \<Rightarrow> list_all fully_loaded (kept_posts keywords ps))
       names"

section \<open>Input parsing and file names (lines 35--36, 85--92, 181)\<close>

record inputs =
  client_id :: string
  client_secret :: string
  user_agent :: string
  subreddits_input :: string
  keywords_input :: string
  show_raw_data :: bool

text \<open>\<open>[s.strip() for s in text.split(",") if s.strip()]\<close>\<close>

definition parse_list :: "string \<Rightarrow> string list" where
  "parse_list s = map strip (filter (\<lambda>x. strip x \<noteq> []) (split CHR '','' s))"

text \<open>
  \<open>strftime("%m_%d_%Y_%H_%M")\<close>: two digits for month, day, hour and minute; the year
  in decimal (four digits from the year 1000 on).
\<close>

definition pad2 :: "nat \<Rightarrow> string" where
  "pad2 n = (if n < 10 then CHR ''0'' # str_nat n else str_nat n)"

definition strftime :: "clock \<Rightarrow> string" where
  "strftime t =
     pad2 (month t) @ ''_'' @ pad2 (day t) @ ''_'' @ str_nat (year t) @ ''_''
     @ pad2 (hour t) @ ''_'' @ pad2 (minute t)"

text \<open>\<open>os.path.join\<close> of two components and \<open>os.path.basename\<close>, on POSIX paths.\<close>

definition path_join :: "string \<Rightarrow> string \<Rightarrow> string" where
  "path_join a b =
     (case b of
        [] \<Rightarrow> (if a = [] \<or> last a = CHR ''/'' then a else a @ ''/'')
      | c # cs \<Rightarrow>
          (if c = CHR ''/'' then b
           else if a = [] \<or> last a = CHR ''/'' then a @ b
           else a @ ''/'' @ b))"

definition basename :: "string \<Rightarrow> string" where
  "basename p = rev (takeWhile (\<lambda>c. c \<noteq> CHR ''/'') (rev p))"

section \<open>Files, scoring, summary and archive (lines 80--193)\<close>

text \<open>
  Creating the folder and writing a file are taken to succeed; reading a file for the
  archive raises when the file is not there.
\<close>

definition makedirs :: "string \<Rightarrow> world \<Rightarrow> world" where
  "makedirs d w = w\<lparr>dirs := (if d \<in> set (dirs w) then dirs w else dirs w @ [d])\<rparr>"

definition write_file :: "string \<Rightarrow> string \<Rightarrow> world \<Rightarrow> world" where
  "write_file path content w = w\<lparr>files := (files w)(path \<mapsto> content)\<rparr>"

text \<open>
  Line 99: \<open>df['text'].apply(lambda x: sid.polarity_scores(str(x)))\<close>. An exception of
  the scorer is not caught and ends the run.
\<close>

fun score_rows :: "env \<Rightarrow> row list \<Rightarrow> world \<Rightarrow> (exn + scores list) \<times> world" where
  "score_rows e [] w = (Inr [], w)"
| "score_rows e (r # rs) w =
     (case polarity_scores e (PStr (py_str (row_text r))) of
        Inl x \<Rightarrow> (Inl x, called (PolarityScores (PStr (py_str (row_text r)))) w)
      | Inr s \<Rightarrow>
          (case score_rows e rs (called (PolarityScores (PStr (py_str (row_text r)))) w) of
             (Inl x, w') \<Rightarrow> (Inl x, w')
           | (Inr ss, w') \<Rightarrow> (Inr (s # ss), w')))"

text \<open>Lines 100--114: the columns taken from the dictionary, and the label.\<close>

definition add_scores :: "row \<Rightarrow> scores \<Rightarrow> scored_row" where
  "add_scores r s =
     \<lparr>row_text = row_text r, title = title r, url = url r, subreddit = subreddit r,
      date = date r, scores = s, compound = score_compound s, neg = score_neg s,
      neu = score_neu s, pos = score_pos s,
      sentiment = classify_sentiment (score_compound s)\<rparr>"

text \<open>
  \<open>Series.value_counts()\<close>: each value that occurs with its number of occurrences,
  largest count first. \<open>Series.get(key, default)\<close> looks a value up.
\<close>

definition value_counts :: "string list \<Rightarrow> (string \<times> nat) list" where
  "value_counts xs =
     map (\<lambda>l. (l, count_list xs l))
       (sort_key (\<lambda>l. - int (count_list xs l)) (rev (remdups (rev xs))))"

definition series_get :: "(string \<times> nat) list \<Rightarrow> string \<Rightarrow> nat \<Rightarrow> nat" where
  "series_get s k d = (case map_of s k of None \<Rightarrow> d | Some n \<Rightarrow> n)"

text \<open>Lines 121--125.\<close>

definition sentiment_counts :: "scored_row list \<Rightarrow> (string \<times> nat) list" where
  "sentiment_counts df = value_counts (map sentiment df)"

definition total_posts :: "scored_row list \<Rightarrow> nat" where
  "total_posts df = length df"

definition pos_count :: "scored_row list \<Rightarrow> nat" where
  "pos_count df = series_get (sentiment_counts df) ''positive'' 0"

definition neg_count :: "scored_row list \<Rightarrow> nat" where
  "neg_count df = series_get (sentiment_counts df) ''negative'' 0"

definition neu_count :: "scored_row list \<Rightarrow> nat" where
  "neu_count df = series_get (sentiment_counts df) ''neutral'' 0"

text \<open>Lines 127--132.\<close>

definition summary :: "string \<Rightarrow> scored_row list \<Rightarrow> ui_event list" where
  "summary folder_name df =
     [StSuccess ''Sentiment Analysis Complete!'',
      StWrite (''**Total Comments Analyzed:** '' @ str_nat (total_posts df)),
      StWrite (''**Positive:** '' @ str_nat (pos_count df)),
      StWrite (''**Negative:** '' @ str_nat (neg_count df)),
      StWrite (''**Neutral:** '' @ str_nat (neu_count df)),
      StWrite (''**Results saved in folder:** '' @ folder_name)]"

text \<open>
  Lines 180--181: \<open>zip_file.write(file_path, arcname=os.path.basename(file_path))\<close> for
  each output file. An archive is the list of its entries, name and content.
\<close>

fun zip_write :: "(string \<rightharpoonup> string) \<Rightarrow> string list \<Rightarrow> exn + (string \<times> string) list" where
  "zip_write fs [] = Inr []"
| "zip_write fs (file_path # rest) =
     (case fs file_path of
        None \<Rightarrow> Inl (Exn ''FileNotFoundError'')
      | Some content \<Rightarrow>
          (case zip_write fs rest of
             Inl x \<Rightarrow> Inl x
           | Inr entries \<Rightarrow> Inr ((basename file_path, content) # entries)))"

text \<open>Lines 116--193, once the table is scored.\<close>

definition report ::
  "env \<Rightarrow> inputs \<Rightarrow> string \<Rightarrow> string \<Rightarrow> string \<Rightarrow> scored_row list \<Rightarrow> world \<Rightarrow> world \<times> exn option"
where
  "report e inp folder_name csv_path tab_path df w =
     (let sentiment_csv = path_join folder_name ''sentiment_analysis_results.csv'';
          w1 = write_file sentiment_csv (to_csv_scored e df) w;
          w2 = w1\<lparr>ui := ui w1 @ summary folder_name df\<rparr>;
          time_plot_path = path_join folder_name ''sentiment_over_time.png'';
          w3 = say (StPyplot (time_plot_png e df))
                 (write_file time_plot_path (time_plot_png e df) w2);
          dist_plot_path = path_join folder_name ''sentiment_distribution.png'';
          w4 = say (StPyplot (dist_plot_png e (sentiment_counts df)))
                 (write_file dist_plot_path (dist_plot_png e (sentiment_counts df)) w3);
          output_files = [csv_path, tab_path, sentiment_csv, time_plot_path, dist_plot_path]
      in case zip_write (files w4) output_files of
           Inl x \<Rightarrow> (w4, Some x)
         | Inr zip_buffer \<Rightarrow>
             (let w5 = say (StDownloadButton ''Download All Output Files as ZIP'' zip_buffer
                              (folder_name @ ''.zip'') ''application/zip'') w4
              in (if show_raw_data inp then say (StDataframe df) w5 else w5, None)))"

text \<open>Lines 80--114: the folder, the two tables, the scores.\<close>

definition analyse :: "env \<Rightarrow> inputs \<Rightarrow> row list \<Rightarrow> world \<Rightarrow> world \<times> exn option" where
  "analyse e inp df w =
     (let folder_name = ''Data_'' @ strftime (now e);
          w1 = makedirs folder_name w;
          csv_path = path_join folder_name (folder_name @ ''.csv'');
          tab_path = path_join folder_name (folder_name @ ''.tab'');
          w2 = write_file csv_path (to_csv e CHR '','' df) w1;
          w3 = write_file tab_path (to_csv e (CHR 0x09) df) w2;
          w4 = say (StInfo ''Performing sentiment analysis...'') w3
      in case score_rows e df w4 of
           (Inl x, w5) \<Rightarrow> (w5, Some x)
         | (Inr ss, w5) \<Rightarrow>
             report e inp folder_name csv_path tab_path (map2 add_scores df ss) w5)"

section \<open>One press of the button (lines 29--193)\<close>

text \<open>
  The result is the world after the run and the exception that ended it, if one was
  not caught.
\<close>

definition run_analysis :: "env \<Rightarrow> inputs \<Rightarrow> world \<Rightarrow> world \<times> exn option" where
  "run_analysis e inp w =
     (if client_id inp = [] \<or> client_secret inp = [] \<or> user_agent inp = []
      then (say (StError ''Please enter all PRAW credentials.'') w, None)
      else
        (let subreddits = parse_list (subreddits_input inp);
             keywords = parse_list (keywords_input inp)
         in if subreddits = []
            then (say (StError ''Please enter at least one subreddit.'') w, None)
            else if keywords = []
            then (say (StError ''Please enter at least one keyword.'') w, None)
            else
              (case praw_Reddit e (client_id inp) (client_secret inp) (user_agent inp) of
                 Some x \<Rightarrow>
                   (say (StError (''Failed to initialize PRAW:'' @ [CHR 0x0A] @ exn_text x))
                      (called (PrawReddit (client_id inp) (client_secret inp) (user_agent inp)) w),
                    None)
               | None \<Rightarrow>
                   (case process_subreddits e keywords subreddits
                           ([], say (StInfo ''Scraping Reddit posts and comments... This may take some time.'')
                                  (called (PrawReddit (client_id inp) (client_secret inp)
                                             (user_agent inp)) w)) of
                      (all_data, w') \<Rightarrow>
                        if all_data = []
                        then (say (StInfo ''No comments were found matching the specified keywords.'') w',
                              None)
                        else analyse e inp all_data w'))))"

section \<open>Descriptions used in the statements\<close>

text \<open>
  The comment count, after full expansion, of the posts that the loop reaches: the kept
  posts of each subreddit up to the first exception.
\<close>

definition processed_row_count :: "env \<Rightarrow> string list \<Rightarrow> string list \<Rightarrow> nat" where
  "processed_row_count e keywords names =
     sum_list (map (\<lambda>name. case new e name 50 of
                              Inl x \<Rightarrow> 0
                            | Inr ps \<Rightarrow>
                                sum_list (map comment_count
                                  (takeWhile expanded (kept_posts keywords ps))))
                   names)"

text \<open>
  The rows a run collects before line 77, the inputs with which a run gets that far, the
  archives a page offers for download, and the name of the output folder.
\<close>

definition collected :: "env \<Rightarrow> inputs \<Rightarrow> world \<Rightarrow> row list \<times> world" where
  "collected e inp w =
     process_subreddits e (parse_list (keywords_input inp)) (parse_list (subreddits_input inp))
       ([], say (StInfo ''Scraping Reddit posts and comments... This may take some time.'')
              (called (PrawReddit (client_id inp) (client_secret inp) (user_agent inp)) w))"

definition reaches_fetch :: "env \<Rightarrow> inputs \<Rightarrow> bool" where
  "reaches_fetch e inp \<longleftrightarrow>
     client_id inp \<noteq> [] \<and> client_secret inp \<noteq> [] \<and> user_agent inp \<noteq> [] \<and>
     parse_list (subreddits_input inp) \<noteq> [] \<and> parse_list (keywords_input inp) \<noteq> [] \<and>
     praw_Reddit e (client_id inp) (client_secret inp) (user_agent inp) = None"

fun archives :: "ui_event list \<Rightarrow> (string \<times> (string \<times> string) list \<times> string) list" where
  "archives [] = []"
| "archives (StDownloadButton label entries file_name mime # es) =
     (file_name, entries, mime) # archives es"
| "archives (m # es) = archives es"

definition folder_of :: "env \<Rightarrow> string" where
  "folder_of e = ''Data_'' @ strftime (now e)"

text \<open>The entries of the archive, for the table \<open>df\<close> and the scored table \<open>sdf\<close>.\<close>

definition entries_of :: "env \<Rightarrow> row list \<Rightarrow> scored_row list \<Rightarrow> (string \<times> string) list" where
  "entries_of e df sdf =
     [(folder_of e @ ''.csv'', to_csv e CHR '','' df),
      (folder_of e @ ''.tab'', to_csv e (CHR 0x09) df),
      (''sentiment_analysis_results.csv'', to_csv_scored e sdf),
      (''sentiment_over_time.png'', time_plot_png e sdf),
      (''sentiment_distribution.png'', dist_plot_png e (sentiment_counts sdf))]"

section \<open>Example runs\<close>

definition empty_world :: world where
  "empty_world = \<lparr>ui = [], dirs = [], files = Map.empty, calls = []\<rparr>"

definition demo_scorer :: "pyval \<Rightarrow> exn + scores" where
  "demo_scorer v =
     (case v of
        PStr s \<Rightarrow> Inr \<lparr>score_neg = 0, score_neu = 1, score_pos = 0, score_compound = 0\<rparr>
      | PNone \<Rightarrow> Inl (Exn ''AttributeError'')
      | PInt i \<Rightarrow> Inl (Exn ''AttributeError'')
      | PNaN \<Rightarrow> Inl (Exn ''AttributeError''))"

definition demo_env :: "post list \<Rightarrow> env" where
  "demo_env ps =
     \<lparr>praw_Reddit = (\<lambda>a b c. None),
      subreddit_posts = (\<lambda>name. if name = ''python'' then Inr ps else Inl (Exn ''received 404 HTTP response'')),
      now = \<lparr>year = 2024, month = 3, day = 9, hour = 14, minute = 5\<rparr>,
      polarity_scores = demo_scorer,
      to_csv = (\<lambda>sep df. sep # ''table''),
      to_csv_scored = (\<lambda>df. ''scored table''),
      time_plot_png = (\<lambda>df. ''time plot''),
      dist_plot_png = (\<lambda>counts. ''bar chart'')\<rparr>"

definition demo_comment :: comment where
  "demo_comment = \<lparr>body = PStr ''nice'', created_utc = 0\<rparr>"

definition post_ok :: post where
  "post_ok = \<lparr>post_title = ''Streamlit is great'', post_url = ''u1'',
              post_comments = Inr [Loaded demo_comment]\<rparr>"

definition post_failing :: post where
  "post_failing = \<lparr>post_title = ''More Streamlit'', post_url = ''u2'',
                   post_comments = Inl (Exn ''timeout'')\<rparr>"

definition post_stubbed :: post where
  "post_stubbed = \<lparr>post_title = ''Streamlit tips'', post_url = ''u4'',
                   post_comments =
                     Inr [Loaded demo_comment, MoreComments [demo_comment, demo_comment]]\<rparr>"

definition post_other :: post where
  "post_other = \<lparr>post_title = ''Django rocks'', post_url = ''u3'',
                 post_comments = Inr [Loaded demo_comment]\<rparr>"

definition demo_inputs :: inputs where
  "demo_inputs =
     \<lparr>client_id = ''id'', client_secret = ''secret'', user_agent = ''agent'',
      subreddits_input = ''python'', keywords_input = ''streamlit'', show_raw_data = False\<rparr>"

text \<open>A table whose text cells are not strings.\<close>

definition mixed_table :: "row list" where
  "mixed_table =
     [\<lparr>row_text = PNone, title = ''t'', url = ''u'', subreddit = ''python'', date = 0\<rparr>,
      \<lparr>row_text = PInt 7, title = ''t'', url = ''u'', subreddit = ''python'', date = 0\<rparr>]"

section \<open>Strings\<close>

lemma startswith_iff: "startswith t k \<longleftrightarrow> (\<exists>v. t = k @ v)"
  by (induction t k rule: startswith.induct) auto

lemma str_in_iff: "str_in k t \<longleftrightarrow> (\<exists>u v. t = u @ k @ v)"
proof (induction t)
  case Nil
  then show ?case by auto
next
  case (Cons c t)
  show ?case
  proof
    assume "str_in k (c # t)"
    then consider "startswith (c # t) k" | "str_in k t" by auto
    then show "\<exists>u v. c # t = u @ k @ v"
    proof cases
      case 1
      then obtain v where "c # t = k @ v" by (auto simp: startswith_iff)
      then have "c # t = [] @ k @ v" by simp
      then show ?thesis by blast
    next
      case 2
      then obtain u v where "t = u @ k @ v" using Cons.IH by auto
      then have "c # t = (c # u) @ k @ v" by simp
      then show ?thesis by blast
    qed
  next
    assume "\<exists>u v. c # t = u @ k @ v"
    then obtain u v where uv: "c # t = u @ k @ v" by auto
    show "str_in k (c # t)"
    proof (cases u)
      case Nil
      with uv have "startswith (c # t) k" by (auto simp: startswith_iff)
      then show ?thesis by simp
    next
      case (Cons a u')
      with uv have "t = u' @ k @ v" by simp
      then have "str_in k t" using Cons.IH by auto
      then show ?thesis by simp
    qed
  qed
qed

lemma title_matches_iff:
  "title_matches kws t \<longleftrightarrow> (\<exists>k \<in> set kws. \<exists>u v. lower t = u @ lower k @ v)"
  by (simp add: title_matches_def list_ex_iff str_in_iff)

lemma process_one_post:
  "fst (fst (process_posts kws name [p] (d, w))) =
     (if title_matches kws (post_title p) then d @ post_rows name p else d)"
  by (simp add: post_rows_def split: sum.splits)

lemma title_example_in: "title_matches [''streamlit''] ''Streamlit is great''"
  by code_simp

lemma title_example_out: "\<not> title_matches [''streamlit''] ''Django rocks''"
  by code_simp

section \<open>The collecting loop\<close>

lemma process_posts_rows:
  "fst (fst (process_posts kws name ps (d, w))) =
     d @ concat (map (post_rows name) (takeWhile expanded (kept_posts kws ps)))"
  by (induction ps arbitrary: d w)
     (auto simp: kept_posts_def expanded_def post_rows_def split: sum.splits)

lemma process_posts_exn:
  "snd (process_posts kws name ps (d, w)) = first_failure (kept_posts kws ps)"
  by (induction ps arbitrary: d w) (auto simp: kept_posts_def split: sum.splits)

lemma process_posts_ui: "ui (snd (fst (process_posts kws name ps (d, w)))) = ui w"
  by (induction ps arbitrary: d w) (auto simp: called_def split: sum.splits)

lemma process_posts_files: "files (snd (fst (process_posts kws name ps (d, w)))) = files w"
  by (induction ps arbitrary: d w) (auto simp: called_def split: sum.splits)

lemma process_posts_dirs: "dirs (snd (fst (process_posts kws name ps (d, w)))) = dirs w"
  by (induction ps arbitrary: d w) (auto simp: called_def split: sum.splits)

lemma process_subreddit_rows:
  "fst (process_subreddit e kws name (d, w)) = d @ subreddit_rows e kws name"
proof (cases "new e name 50")
  case (Inl x)
  then show ?thesis by (simp add: process_subreddit_def subreddit_rows_def)
next
  case (Inr ps)
  obtain d' w' r where p: "process_posts kws name ps (d, called (SubredditNew name 50) w) = ((d', w'), r)"
    by (metis surj_pair)
  from process_posts_rows [of kws name ps d "called (SubredditNew name 50) w"] p
  have "d' = d @ concat (map (post_rows name) (takeWhile expanded (kept_posts kws ps)))"
    by simp
  with Inr p show ?thesis
    by (simp add: process_subreddit_def subreddit_rows_def split: option.splits)
qed

lemma process_subreddit_ui:
  "ui (snd (process_subreddit e kws name (d, w))) =
     ui w @ (case subreddit_error e kws name of
               None \<Rightarrow> [] | Some x \<Rightarrow> [error_processing name x])"
proof (cases "new e name 50")
  case (Inl x)
  then show ?thesis
    by (simp add: process_subreddit_def subreddit_error_def say_def called_def)
next
  case (Inr ps)
  obtain d' w' r where p: "process_posts kws name ps (d, called (SubredditNew name 50) w) = ((d', w'), r)"
    by (metis surj_pair)
  from process_posts_exn [of kws name ps d "called (SubredditNew name 50) w"] p
  have r: "r = first_failure (kept_posts kws ps)" by simp
  from process_posts_ui [of kws name ps d "called (SubredditNew name 50) w"] p
  have "ui w' = ui w" by (simp add: called_def)
  with Inr p r show ?thesis
    by (simp add: process_subreddit_def subreddit_error_def say_def split: option.splits)
qed

lemma process_subreddits_rows:
  "fst (process_subreddits e kws names (d, w)) =
     d @ concat (map (subreddit_rows e kws) names)"
proof (induction names arbitrary: d w)
  case Nil
  then show ?case by simp
next
  case (Cons name names)
  obtain d' w' where s: "process_subreddit e kws name (d, w) = (d', w')"
    by (metis surj_pair)
  with process_subreddit_rows [of e kws name d w]
  have "d' = d @ subreddit_rows e kws name" by simp
  with s Cons.IH [of d' w'] show ?case by simp
qed

lemma process_subreddits_ui:
  "ui (snd (process_subreddits e kws names (d, w))) =
     ui w @ error_reports e kws names"
proof (induction names arbitrary: d w)
  case Nil
  then show ?case by (simp add: error_reports_def)
next
  case (Cons name names)
  obtain d' w' where s: "process_subreddit e kws name (d, w) = (d', w')"
    by (metis surj_pair)
  with process_subreddit_ui [of e kws name d w]
  have "ui w' = ui w @ (case subreddit_error e kws name of
               None \<Rightarrow> [] | Some x \<Rightarrow> [error_processing name x])" by simp
  with s Cons.IH [of d' w'] show ?case by (simp add: error_reports_def)
qed

lemma takeWhile_expanded: "first_failure ks = None \<Longrightarrow> takeWhile expanded ks = ks"
  by (induction ks) (auto simp: expanded_def split: sum.splits)

lemma replace_more_0_loaded:
  "list_all is_loaded items \<Longrightarrow> replace_more_0 items = full_expansion items"
  by (induction items rule: replace_more_0.induct) simp_all

lemma length_post_rows: "fully_loaded p \<Longrightarrow> length (post_rows name p) = comment_count p"
  by (simp add: post_rows_def comment_count_def fully_loaded_def replace_more_0_loaded
      split: sum.splits)

lemma length_concat_post_rows:
  "list_all fully_loaded ks \<Longrightarrow>
   length (concat (map (post_rows name) ks)) = sum_list (map comment_count ks)"
  by (induction ks) (simp_all add: length_post_rows)

lemma fully_loaded_takeWhile:
  "list_all fully_loaded ks \<Longrightarrow> list_all fully_loaded (takeWhile P ks)"
  by (induction ks) simp_all

lemma subreddit_rows_processed:
  assumes "case new e name 50 of
             Inl x \<Rightarrow> True
           | Inr ps \<Rightarrow> list_all fully_loaded (kept_posts kws ps)"
  shows "length (subreddit_rows e kws name) =
     (case new e name 50 of
        Inl x \<Rightarrow> 0
      | Inr ps \<Rightarrow> sum_list (map comment_count (takeWhile expanded (kept_posts kws ps))))"
proof (cases "new e name 50")
  case (Inl x)
  then show ?thesis by (simp add: subreddit_rows_def)
next
  case (Inr ps)
  with assms have "list_all fully_loaded (takeWhile expanded (kept_posts kws ps))"
    by (simp add: fully_loaded_takeWhile)
  with Inr show ?thesis by (simp add: subreddit_rows_def length_concat_post_rows)
qed

lemma subreddit_rows_count:
  assumes "subreddit_error e kws name = None"
    and "case new e name 50 of
           Inl x \<Rightarrow> True
         | Inr ps \<Rightarrow> list_all fully_loaded (kept_posts kws ps)"
  shows "length (subreddit_rows e kws name) =
     (case new e name 50 of
        Inl x \<Rightarrow> 0
      | Inr ps \<Rightarrow> sum_list (map comment_count (kept_posts kws ps)))"
proof (cases "new e name 50")
  case (Inl x)
  then show ?thesis by (simp add: subreddit_rows_def)
next
  case (Inr ps)
  with assms(1) have "takeWhile expanded (kept_posts kws ps) = kept_posts kws ps"
    by (simp add: subreddit_error_def takeWhile_expanded)
  with subreddit_rows_processed [OF assms(2)] Inr show ?thesis by simp
qed

lemma rows_count_no_exception:
  "no_stubs e kws names \<Longrightarrow> no_exception e kws names \<Longrightarrow>
   length (concat (map (subreddit_rows e kws) names)) = expected_row_count e kws names"
  by (induction names)
     (simp_all add: no_stubs_def no_exception_def expected_row_count_def subreddit_rows_count)

lemma processed_count:
  "no_stubs e kws names \<Longrightarrow>
   length (concat (map (subreddit_rows e kws) names)) = processed_row_count e kws names"
  by (induction names)
     (simp_all add: no_stubs_def processed_row_count_def subreddit_rows_processed)

lemma process_subreddit_files:
  "files (snd (process_subreddit e kws name (d, w))) = files w"
proof (cases "new e name 50")
  case (Inl x)
  then show ?thesis by (simp add: process_subreddit_def say_def called_def)
next
  case (Inr ps)
  obtain d' w' r where p: "process_posts kws name ps (d, called (SubredditNew name 50) w) = ((d', w'), r)"
    by (metis surj_pair)
  from process_posts_files [of kws name ps d "called (SubredditNew name 50) w"] p
  have "files w' = files w" by (simp add: called_def)
  with Inr p show ?thesis
    by (simp add: process_subreddit_def say_def split: option.splits)
qed

lemma process_subreddit_dirs:
  "dirs (snd (process_subreddit e kws name (d, w))) = dirs w"
proof (cases "new e name 50")
  case (Inl x)
  then show ?thesis by (simp add: process_subreddit_def say_def called_def)
next
  case (Inr ps)
  obtain d' w' r where p: "process_posts kws name ps (d, called (SubredditNew name 50) w) = ((d', w'), r)"
    by (metis surj_pair)
  from process_posts_dirs [of kws name ps d "called (SubredditNew name 50) w"] p
  have "dirs w' = dirs w" by (simp add: called_def)
  with Inr p show ?thesis
    by (simp add: process_subreddit_def say_def split: option.splits)
qed

lemma process_subreddits_files:
  "files (snd (process_subreddits e kws names (d, w))) = files w"
proof (induction names arbitrary: d w)
  case Nil
  then show ?case by simp
next
  case (Cons name names)
  obtain d' w' where s: "process_subreddit e kws name (d, w) = (d', w')"
    by (metis surj_pair)
  with process_subreddit_files [of e kws name d w] have "files w' = files w" by simp
  with s Cons.IH [of d' w'] show ?case by simp
qed

lemma process_subreddits_dirs:
  "dirs (snd (process_subreddits e kws names (d, w))) = dirs w"
proof (induction names arbitrary: d w)
  case Nil
  then show ?case by simp
next
  case (Cons name names)
  obtain d' w' where s: "process_subreddit e kws name (d, w) = (d', w')"
    by (metis surj_pair)
  with process_subreddit_dirs [of e kws name d w] have "dirs w' = dirs w" by simp
  with s Cons.IH [of d' w'] show ?case by simp
qed

lemma collected_files: "files (snd (collected e inp w)) = files w"
  by (simp add: collected_def process_subreddits_files say_def called_def)

lemma collected_dirs: "dirs (snd (collected e inp w)) = dirs w"
  by (simp add: collected_def process_subreddits_dirs say_def called_def)

lemma collected_ui:
  "ui (snd (collected e inp w)) =
     ui w @ [StInfo ''Scraping Reddit posts and comments... This may take some time.'']
     @ error_reports e (parse_list (keywords_input inp)) (parse_list (subreddits_input inp))"
  by (simp add: collected_def process_subreddits_ui say_def called_def)

lemma run_analysis_fetch:
  assumes "reaches_fetch e inp"
  shows "run_analysis e inp w =
     (if fst (collected e inp w) = []
      then (say (StInfo ''No comments were found matching the specified keywords.'')
              (snd (collected e inp w)), None)
      else analyse e inp (fst (collected e inp w)) (snd (collected e inp w)))"
  using assms
  by (simp add: run_analysis_def reaches_fetch_def collected_def Let_def split: prod.splits)

section \<open>Counting labels\<close>

lemma map_of_tabulate:
  "map_of (map (\<lambda>l. (l, f l)) ys) k = (if k \<in> set ys then Some (f k) else None)"
  by (induction ys) auto

lemma map_of_value_counts:
  "map_of (value_counts xs) k = (if k \<in> set xs then Some (count_list xs k) else None)"
  by (simp add: value_counts_def map_of_tabulate)

lemma series_get_value_counts: "series_get (value_counts xs) k 0 = count_list xs k"
  by (simp add: series_get_def map_of_value_counts count_list_0_iff)

lemma count_three:
  assumes "a \<noteq> b" and "a \<noteq> c" and "b \<noteq> c"
    and "list_all (\<lambda>x. x = a \<or> x = b \<or> x = c) xs"
  shows "count_list xs a + count_list xs b + count_list xs c = length xs"
  using assms by (induction xs) auto

lemma classify_sentiment_label:
  "classify_sentiment s = ''positive'' \<or> classify_sentiment s = ''negative''
   \<or> classify_sentiment s = ''neutral''"
  by (simp add: classify_sentiment_def)

lemma sentiment_add_scores:
  "sentiment (add_scores r s) = classify_sentiment (score_compound s)"
  by (simp add: add_scores_def)

lemma labels_of_table:
  "list_all (\<lambda>x. x = ''positive'' \<or> x = ''negative'' \<or> x = ''neutral'')
     (map sentiment (map2 add_scores rows ss))"
proof -
  have "x = ''positive'' \<or> x = ''negative'' \<or> x = ''neutral''"
    if "x \<in> set (map sentiment (map2 add_scores rows ss))" for x
  proof -
    from that obtain r s where "x = sentiment (add_scores r s)" by auto
    then have "x = classify_sentiment (score_compound s)"
      by (simp add: sentiment_add_scores)
    then show ?thesis using classify_sentiment_label [of "score_compound s"] by simp
  qed
  then show ?thesis unfolding list_all_iff by blast
qed

section \<open>Scoring\<close>

lemma score_rows_total:
  assumes "\<forall>s. \<exists>r. polarity_scores e (PStr s) = Inr r"
  shows "\<exists>ss. fst (score_rows e df w) = Inr ss \<and> length ss = length df"
proof (induction df arbitrary: w)
  case Nil
  then show ?case by simp
next
  case (Cons r rs)
  from assms obtain s where s: "polarity_scores e (PStr (py_str (row_text r))) = Inr s"
    by blast
  from Cons.IH [of "called (PolarityScores (PStr (py_str (row_text r)))) w"]
  obtain ss where "fst (score_rows e rs (called (PolarityScores (PStr (py_str (row_text r)))) w)) = Inr ss"
    and "length ss = length rs" by blast
  with s show ?case by (auto split: prod.splits sum.splits)
qed

lemma score_rows_calls:
  assumes "\<forall>s. \<exists>r. polarity_scores e (PStr s) = Inr r"
  shows "calls (snd (score_rows e df w)) =
     calls w @ map (\<lambda>r. PolarityScores (PStr (py_str (row_text r)))) df"
proof (induction df arbitrary: w)
  case Nil
  then show ?case by simp
next
  case (Cons r rs)
  from assms obtain s where s: "polarity_scores e (PStr (py_str (row_text r))) = Inr s"
    by blast
  obtain res w' where t:
    "score_rows e rs (called (PolarityScores (PStr (py_str (row_text r)))) w) = (res, w')"
    by (metis surj_pair)
  with Cons.IH [of "called (PolarityScores (PStr (py_str (row_text r)))) w"]
  have "calls w' = calls w @ PolarityScores (PStr (py_str (row_text r)))
      # map (\<lambda>r. PolarityScores (PStr (py_str (row_text r)))) rs"
    by (simp add: called_def)
  with s t show ?case by (cases res) simp_all
qed

section \<open>File names and the archive\<close>

lemma of_char_digit_chr: "(of_char (digit_chr n) :: nat) = 48 + n mod 10"
proof -
  have "n mod 10 < 10" by simp
  then have "48 + n mod 10 < 256" by linarith
  then have "(48 + n mod 10) mod 256 = 48 + n mod 10" by (rule mod_less)
  then show ?thesis by (simp only: digit_chr_def of_char_of)
qed

lemma of_char_slash: "(of_char (CHR ''/'') :: nat) = 47"
  by simp

lemma digit_chr_not_slash: "digit_chr n \<noteq> CHR ''/''"
proof
  assume "digit_chr n = CHR ''/''"
  then have "(of_char (digit_chr n) :: nat) = of_char (CHR ''/'')" by (simp only:)
  then have "48 + n mod 10 = (47 :: nat)"
    by (simp only: of_char_digit_chr of_char_slash)
  then show False by linarith
qed

lemma str_nat_no_slash: "CHR ''/'' \<notin> set (str_nat n)"
proof (induction n rule: str_nat.induct)
  case (1 n)
  show ?case
  proof (cases "n < 10")
    case True
    then have "str_nat n = [digit_chr n]" by (subst str_nat.simps) simp
    then show ?thesis using digit_chr_not_slash [of n] by simp
  next
    case False
    with "1" have "CHR ''/'' \<notin> set (str_nat (n div 10))" by simp
    moreover from False have "str_nat n = str_nat (n div 10) @ [digit_chr n]"
      by (subst str_nat.simps) simp
    ultimately show ?thesis using digit_chr_not_slash [of n] by simp
  qed
qed

lemma pad2_no_slash: "CHR ''/'' \<notin> set (pad2 n)"
  by (simp add: pad2_def str_nat_no_slash)

lemma strftime_no_slash: "CHR ''/'' \<notin> set (strftime t)"
  by (simp add: strftime_def pad2_no_slash str_nat_no_slash)

lemma folder_no_slash: "CHR ''/'' \<notin> set (folder_of e)"
  by (simp add: folder_of_def strftime_no_slash)

lemma folder_not_Nil: "folder_of e \<noteq> []"
  by (simp add: folder_of_def)

lemma path_join_plain:
  assumes "a \<noteq> []" and "CHR ''/'' \<notin> set a" and "b \<noteq> []" and "CHR ''/'' \<notin> set b"
  shows "path_join a b = a @ ''/'' @ b"
proof -
  from assms(1,2) have "last a \<noteq> CHR ''/''" using last_in_set by metis
  moreover from assms(3,4) obtain c cs where "b = c # cs" and "c \<noteq> CHR ''/''"
    by (cases b) auto
  ultimately show ?thesis using assms(1) by (simp add: path_join_def)
qed

lemma basename_plain:
  assumes "CHR ''/'' \<notin> set b"
  shows "basename (a @ ''/'' @ b) = b"
proof -
  from assms have "takeWhile (\<lambda>c. c \<noteq> CHR ''/'') (rev b @ ''/'' @ rev a) = rev b"
    by (simp add: takeWhile_append)
  then show ?thesis by (simp add: basename_def)
qed

lemma join_folder:
  assumes "b \<noteq> []" and "CHR ''/'' \<notin> set b"
  shows "path_join (folder_of e) b = folder_of e @ ''/'' @ b"
  using path_join_plain [OF folder_not_Nil folder_no_slash assms] .

lemma names_distinct:
  "folder_of e @ ''.csv'' \<noteq> folder_of e @ ''.tab''"
  "folder_of e @ ''.csv'' \<noteq> ''sentiment_analysis_results.csv''"
  "folder_of e @ ''.csv'' \<noteq> ''sentiment_over_time.png''"
  "folder_of e @ ''.csv'' \<noteq> ''sentiment_distribution.png''"
  "folder_of e @ ''.tab'' \<noteq> ''sentiment_analysis_results.csv''"
  "folder_of e @ ''.tab'' \<noteq> ''sentiment_over_time.png''"
  "folder_of e @ ''.tab'' \<noteq> ''sentiment_distribution.png''"
  by (simp_all add: folder_of_def)

lemma fixed_joins:
  "path_join (folder_of e) ''sentiment_analysis_results.csv''
     = folder_of e @ ''/'' @ ''sentiment_analysis_results.csv''"
  "path_join (folder_of e) ''sentiment_over_time.png''
     = folder_of e @ ''/'' @ ''sentiment_over_time.png''"
  "path_join (folder_of e) ''sentiment_distribution.png''
     = folder_of e @ ''/'' @ ''sentiment_distribution.png''"
  "path_join (folder_of e) (folder_of e @ ''.csv'') = folder_of e @ ''/'' @ folder_of e @ ''.csv''"
  "path_join (folder_of e) (folder_of e @ ''.tab'') = folder_of e @ ''/'' @ folder_of e @ ''.tab''"
  by (rule join_folder; simp add: folder_no_slash)+

lemma fixed_basenames:
  "basename (folder_of e @ ''/'' @ ''sentiment_analysis_results.csv'')
     = ''sentiment_analysis_results.csv''"
  "basename (folder_of e @ ''/'' @ ''sentiment_over_time.png'') = ''sentiment_over_time.png''"
  "basename (folder_of e @ ''/'' @ ''sentiment_distribution.png'')
     = ''sentiment_distribution.png''"
  "basename (folder_of e @ ''/'' @ folder_of e @ ''.csv'') = folder_of e @ ''.csv''"
  "basename (folder_of e @ ''/'' @ folder_of e @ ''.tab'') = folder_of e @ ''.tab''"
  by (rule basename_plain; simp add: folder_no_slash)+

lemma zip_write_five:
  assumes "fs p1 = Some c1" "fs p2 = Some c2" "fs p3 = Some c3" "fs p4 = Some c4" "fs p5 = Some c5"
  shows "zip_write fs [p1, p2, p3, p4, p5] =
     Inr [(basename p1, c1), (basename p2, c2), (basename p3, c3), (basename p4, c4),
          (basename p5, c5)]"
  using assms by simp

lemma report_result:
  assumes csv: "files w (folder_of e @ ''/'' @ folder_of e @ ''.csv'') = Some (to_csv e CHR '','' df)"
    and tab: "files w (folder_of e @ ''/'' @ folder_of e @ ''.tab'') = Some (to_csv e (CHR 0x09) df)"
  shows "report e inp (folder_of e) (folder_of e @ ''/'' @ folder_of e @ ''.csv'')
           (folder_of e @ ''/'' @ folder_of e @ ''.tab'') sdf w =
     (w\<lparr>ui := ui w @ summary (folder_of e) sdf
               @ [StPyplot (time_plot_png e sdf),
                  StPyplot (dist_plot_png e (sentiment_counts sdf)),
                  StDownloadButton ''Download All Output Files as ZIP'' (entries_of e df sdf)
                    (folder_of e @ ''.zip'') ''application/zip'']
               @ (if show_raw_data inp then [StDataframe sdf] else []),
         files := (files w)
           (folder_of e @ ''/'' @ ''sentiment_analysis_results.csv'' \<mapsto> to_csv_scored e sdf,
            folder_of e @ ''/'' @ ''sentiment_over_time.png'' \<mapsto> time_plot_png e sdf,
            folder_of e @ ''/'' @ ''sentiment_distribution.png'' \<mapsto>
              dist_plot_png e (sentiment_counts sdf))\<rparr>, None)"
proof -
  let ?fs = "(files w)
           (folder_of e @ ''/'' @ ''sentiment_analysis_results.csv'' \<mapsto> to_csv_scored e sdf,
            folder_of e @ ''/'' @ ''sentiment_over_time.png'' \<mapsto> time_plot_png e sdf,
            folder_of e @ ''/'' @ ''sentiment_distribution.png'' \<mapsto>
              dist_plot_png e (sentiment_counts sdf))"
  have f1: "?fs (folder_of e @ ''/'' @ folder_of e @ ''.csv'') = Some (to_csv e CHR '','' df)"
    using csv names_distinct [of e] by simp
  have f2: "?fs (folder_of e @ ''/'' @ folder_of e @ ''.tab'') = Some (to_csv e (CHR 0x09) df)"
    using tab names_distinct [of e] by simp
  have f3: "?fs (folder_of e @ ''/'' @ ''sentiment_analysis_results.csv'') = Some (to_csv_scored e sdf)"
    by simp
  have f4: "?fs (folder_of e @ ''/'' @ ''sentiment_over_time.png'') = Some (time_plot_png e sdf)"
    by simp
  have f5: "?fs (folder_of e @ ''/'' @ ''sentiment_distribution.png'')
      = Some (dist_plot_png e (sentiment_counts sdf))"
    by simp
  have z: "zip_write ?fs
      [folder_of e @ ''/'' @ folder_of e @ ''.csv'', folder_of e @ ''/'' @ folder_of e @ ''.tab'',
       folder_of e @ ''/'' @ ''sentiment_analysis_results.csv'',
       folder_of e @ ''/'' @ ''sentiment_over_time.png'',
       folder_of e @ ''/'' @ ''sentiment_distribution.png''] = Inr (entries_of e df sdf)"
    using zip_write_five [of "?fs", OF f1 f2 f3 f4 f5]
    by (simp only: fixed_basenames entries_of_def)
  show ?thesis
    unfolding report_def Let_def fixed_joins write_file_def say_def
    using z by simp
qed

lemma score_rows_frame:
  "ui (snd (score_rows e df w)) = ui w \<and> files (snd (score_rows e df w)) = files w
   \<and> dirs (snd (score_rows e df w)) = dirs w"
proof (induction df arbitrary: w)
  case Nil
  then show ?case by simp
next
  case (Cons r rs)
  obtain res w' where s:
    "score_rows e rs (called (PolarityScores (PStr (py_str (row_text r)))) w) = (res, w')"
    by (metis surj_pair)
  with Cons.IH [of "called (PolarityScores (PStr (py_str (row_text r)))) w"]
  have "ui w' = ui w \<and> files w' = files w \<and> dirs w' = dirs w"
    by (simp add: called_def)
  with s show ?case
    by (cases "polarity_scores e (PStr (py_str (row_text r)))"; cases res)
       (simp_all add: called_def)
qed

lemma archives_append: "archives (xs @ ys) = archives xs @ archives ys"
  by (induction xs rule: archives.induct) auto

lemma archives_error_reports: "archives (error_reports e kws names) = []"
  by (induction names)
     (auto simp: error_reports_def error_processing_def archives_append split: option.splits)

lemma archives_summary: "archives (summary f sdf) = []"
  by (simp add: summary_def)

lemma analyse_result:
  assumes "snd (analyse e inp df w) = None"
  shows "\<exists>sdf.
     ui (fst (analyse e inp df w)) =
       ui w @ [StInfo ''Performing sentiment analysis...''] @ summary (folder_of e) sdf
         @ [StPyplot (time_plot_png e sdf),
            StPyplot (dist_plot_png e (sentiment_counts sdf)),
            StDownloadButton ''Download All Output Files as ZIP'' (entries_of e df sdf)
              (folder_of e @ ''.zip'') ''application/zip'']
         @ (if show_raw_data inp then [StDataframe sdf] else []) \<and>
     files (fst (analyse e inp df w)) =
       (files w)
         (folder_of e @ ''/'' @ folder_of e @ ''.csv'' \<mapsto> to_csv e CHR '','' df,
          folder_of e @ ''/'' @ folder_of e @ ''.tab'' \<mapsto> to_csv e (CHR 0x09) df,
          folder_of e @ ''/'' @ ''sentiment_analysis_results.csv'' \<mapsto> to_csv_scored e sdf,
          folder_of e @ ''/'' @ ''sentiment_over_time.png'' \<mapsto> time_plot_png e sdf,
          folder_of e @ ''/'' @ ''sentiment_distribution.png'' \<mapsto>
            dist_plot_png e (sentiment_counts sdf))"
proof -
  let ?w3 = "write_file (folder_of e @ ''/'' @ folder_of e @ ''.tab'') (to_csv e (CHR 0x09) df)
      (write_file (folder_of e @ ''/'' @ folder_of e @ ''.csv'') (to_csv e CHR '','' df)
         (makedirs (folder_of e) w))"
  let ?w4 = "say (StInfo ''Performing sentiment analysis...'') ?w3"
  have a: "analyse e inp df w =
     (case score_rows e df ?w4 of
        (Inl x, w5) \<Rightarrow> (w5, Some x)
      | (Inr ss, w5) \<Rightarrow>
          report e inp (folder_of e) (folder_of e @ ''/'' @ folder_of e @ ''.csv'')
            (folder_of e @ ''/'' @ folder_of e @ ''.tab'') (map2 add_scores df ss) w5)"
    unfolding analyse_def Let_def folder_of_def [symmetric] fixed_joins ..
  obtain r w5 where s: "score_rows e df ?w4 = (r, w5)" by (metis surj_pair)
  from score_rows_frame [of e df ?w4] s
  have u: "ui w5 = ui w @ [StInfo ''Performing sentiment analysis...'']"
    and f: "files w5 = (files w)
         (folder_of e @ ''/'' @ folder_of e @ ''.csv'' \<mapsto> to_csv e CHR '','' df,
          folder_of e @ ''/'' @ folder_of e @ ''.tab'' \<mapsto> to_csv e (CHR 0x09) df)"
    by (simp_all add: say_def write_file_def makedirs_def)
  show ?thesis
  proof (cases r)
    case (Inl x)
    with a s assms show ?thesis by simp
  next
    case (Inr ss)
    have csv: "files w5 (folder_of e @ ''/'' @ folder_of e @ ''.csv'') = Some (to_csv e CHR '','' df)"
      unfolding f using names_distinct(1) [of e] by simp
    have tab: "files w5 (folder_of e @ ''/'' @ folder_of e @ ''.tab'') = Some (to_csv e (CHR 0x09) df)"
      unfolding f by simp
    from a s Inr have "analyse e inp df w =
        report e inp (folder_of e) (folder_of e @ ''/'' @ folder_of e @ ''.csv'')
            (folder_of e @ ''/'' @ folder_of e @ ''.tab'') (map2 add_scores df ss) w5"
      by simp
    then show ?thesis
      unfolding report_result [OF csv tab] using u f
      by (intro exI [of _ "map2 add_scores df ss"]) simp
  qed
qed

lemma entries_names:
  "map fst (entries_of e df sdf) =
     [folder_of e @ ''.csv'', folder_of e @ ''.tab'', ''sentiment_analysis_results.csv'',
      ''sentiment_over_time.png'', ''sentiment_distribution.png'']"
  by (simp add: entries_of_def)

lemma entries_on_disk:
  assumes "fs = m
         (folder_of e @ ''/'' @ folder_of e @ ''.csv'' \<mapsto> to_csv e CHR '','' df,
          folder_of e @ ''/'' @ folder_of e @ ''.tab'' \<mapsto> to_csv e (CHR 0x09) df,
          folder_of e @ ''/'' @ ''sentiment_analysis_results.csv'' \<mapsto> to_csv_scored e sdf,
          folder_of e @ ''/'' @ ''sentiment_over_time.png'' \<mapsto> time_plot_png e sdf,
          folder_of e @ ''/'' @ ''sentiment_distribution.png'' \<mapsto>
            dist_plot_png e (sentiment_counts sdf))"
  shows "list_all (\<lambda>(n, c). fs (path_join (folder_of e) n) = Some c) (entries_of e df sdf)"
proof -
  note d = names_distinct [of e]
  have "fs (folder_of e @ ''/'' @ folder_of e @ ''.csv'') = Some (to_csv e CHR '','' df)"
    unfolding assms using d by simp
  moreover have "fs (folder_of e @ ''/'' @ folder_of e @ ''.tab'') = Some (to_csv e (CHR 0x09) df)"
    unfolding assms using d by simp
  moreover have "fs (folder_of e @ ''/'' @ ''sentiment_analysis_results.csv'') = Some (to_csv_scored e sdf)"
    unfolding assms by simp
  moreover have "fs (folder_of e @ ''/'' @ ''sentiment_over_time.png'') = Some (time_plot_png e sdf)"
    unfolding assms by simp
  moreover have "fs (folder_of e @ ''/'' @ ''sentiment_distribution.png'')
      = Some (dist_plot_png e (sentiment_counts sdf))"
    unfolding assms by simp
  ultimately show ?thesis
    by (simp only: entries_of_def list.pred_inject fixed_joins case_prod_conv simp_thms)
qed

section \<open>Claims\<close>

text \<open>
  C1. The classifier returns "positive" exactly for scores of at least 0.05, "negative"
  exactly for scores of at most -0.05, and "neutral" exactly for the scores strictly
  between; the two boundary scores are "positive" and "negative".
\<close>

theorem classify_sentiment_thresholds:
  "(classify_sentiment s = ''positive'' \<longleftrightarrow> s \<ge> 0.05) \<and>
   (classify_sentiment s = ''negative'' \<longleftrightarrow> s \<le> - 0.05) \<and>
   (classify_sentiment s = ''neutral'' \<longleftrightarrow> \<not> s \<ge> 0.05 \<and> \<not> s \<le> - 0.05) \<and>
   classify_sentiment 0.05 = ''positive'' \<and>
   classify_sentiment (- 0.05) = ''negative''"
  by (simp add: classify_sentiment_def)

text \<open>
  C2. The filter of the loop, \<open>title_matches\<close>, holds exactly when the lowercased title
  contains some lowercased keyword as a contiguous substring, and the loop appends the
  rows of a post exactly when it holds. "Streamlit is great" is kept for the keyword
  "streamlit" and "Django rocks" is not.
\<close>

theorem title_filter:
  "(title_matches kws (post_title p) \<longleftrightarrow>
      (\<exists>k \<in> set kws. \<exists>u v. lower (post_title p) = u @ lower k @ v)) \<and>
   fst (fst (process_posts kws name [p] (d, w))) =
     (if title_matches kws (post_title p) then d @ post_rows name p else d) \<and>
   title_matches [''streamlit''] ''Streamlit is great'' \<and>
   \<not> title_matches [''streamlit''] ''Django rocks''"
  using title_matches_iff [of kws "post_title p"] process_one_post [of kws name p d w]
    title_example_in title_example_out
  by blast

text \<open>
  C3, as amended. Take a run in which no kept post among the 50 newest of a listed
  subreddit has a \<open>MoreComments\<close> stub in its forest. The number of collected rows is
  the sum of the comment counts, after full expansion, of the kept posts that the loop
  reaches (those before the first exception of their subreddit). If moreover no
  exception is raised, it is the sum over all kept posts among the 50 newest of each
  subreddit.
\<close>

theorem row_count:
  assumes "no_stubs e kws names"
  shows "length (fst (process_subreddits e kws names ([], w))) = processed_row_count e kws names \<and>
   (no_exception e kws names \<longrightarrow>
      length (fst (process_subreddits e kws names ([], w))) = expected_row_count e kws names)"
proof -
  have rows: "fst (process_subreddits e kws names ([], w)) =
      concat (map (subreddit_rows e kws) names)"
    by (simp add: process_subreddits_rows)
  have "length (concat (map (subreddit_rows e kws) names)) = processed_row_count e kws names"
    using assms by (rule processed_count)
  moreover have "no_exception e kws names \<longrightarrow>
      length (concat (map (subreddit_rows e kws) names)) = expected_row_count e kws names"
    using rows_count_no_exception [OF assms] by blast
  ultimately show ?thesis unfolding rows by blast
qed

theorem row_count_witness:
  "no_stubs (demo_env [post_ok, post_other]) [''streamlit''] [''python''] \<and>
   no_exception (demo_env [post_ok, post_other]) [''streamlit''] [''python''] \<and>
   length (fst (process_subreddits (demo_env [post_ok, post_other]) [''streamlit''] [''python'']
                  ([], empty_world))) = 1 \<and>
   processed_row_count (demo_env [post_ok, post_other]) [''streamlit''] [''python''] = 1 \<and>
   expected_row_count (demo_env [post_ok, post_other]) [''streamlit''] [''python''] = 1"
proof -
  have s: "no_stubs (demo_env [post_ok, post_other]) [''streamlit''] [''python'']"
    by code_simp
  have h: "no_exception (demo_env [post_ok, post_other]) [''streamlit''] [''python'']"
    by code_simp
  have c: "expected_row_count (demo_env [post_ok, post_other]) [''streamlit''] [''python''] = 1"
    by code_simp
  from row_count [OF s, of empty_world] s h c show ?thesis by simp
qed

text \<open>
  C3 as stated fails in two ways. When a request raises, the rest of the subreddit is
  skipped: the first kept post fails, the second has one comment; no row is collected
  although the sum over the kept posts is 1. And line 65 passes \<open>limit=0\<close>, against
  the comment of line 64 ("Expand all comments"): a kept post with one loaded comment
  and a stub that stands for two more gives one row, where the count after full
  expansion is 3, with no exception raised.
\<close>

theorem row_count_counterexample:
  "length (fst (process_subreddits (demo_env [post_failing, post_ok]) [''streamlit''] [''python'']
                  ([], empty_world)))
     \<noteq> expected_row_count (demo_env [post_failing, post_ok]) [''streamlit''] [''python''] \<and>
   length (fst (process_subreddits (demo_env [post_failing, post_ok]) [''streamlit''] [''python'']
                  ([], empty_world))) = 0 \<and>
   expected_row_count (demo_env [post_failing, post_ok]) [''streamlit''] [''python''] = 1 \<and>
   no_stubs (demo_env [post_failing, post_ok]) [''streamlit''] [''python''] \<and>
   no_exception (demo_env [post_stubbed]) [''streamlit''] [''python''] \<and>
   length (fst (process_subreddits (demo_env [post_stubbed]) [''streamlit''] [''python'']
                  ([], empty_world))) = 1 \<and>
   expected_row_count (demo_env [post_stubbed]) [''streamlit''] [''python''] = 3"
  by code_simp

text \<open>
  C4, as amended. Every subreddit of the list is processed whatever happened to the
  others: the collected data is the concatenation, in order, of what each subreddit
  contributes, and the page gets one error report for each subreddit that raised. A
  failed subreddit contributes the rows of its kept posts before the exception; they
  stay in the collected data.
\<close>

theorem failed_subreddit:
  "fst (process_subreddits e kws names (d, w)) =
     d @ concat (map (subreddit_rows e kws) names) \<and>
   ui (snd (process_subreddits e kws names (d, w))) = ui w @ error_reports e kws names"
  by (simp add: process_subreddits_rows process_subreddits_ui)

text \<open>
  C4 as stated fails: the subreddit raises at its second kept post, and the row of the
  first one remains in the collected data.
\<close>

theorem failed_subreddit_counterexample:
  "subreddit_error (demo_env [post_ok, post_failing]) [''streamlit''] ''python''
     = Some (Exn ''timeout'') \<and>
   map subreddit (fst (process_subreddits (demo_env [post_ok, post_failing]) [''streamlit'']
                         [''python''] ([], empty_world))) = [''python'']"
  by code_simp

text \<open>
  C5. In a run that reaches the fetch and collects no row, no file and no folder is
  written, the run ends without an exception, and the page shows, after the scraping
  notice and the error reports, the notice that no comments were found.
\<close>

theorem no_match_no_output:
  assumes "reaches_fetch e inp" and "fst (collected e inp w) = []"
  shows "snd (run_analysis e inp w) = None \<and>
         files (fst (run_analysis e inp w)) = files w \<and>
         dirs (fst (run_analysis e inp w)) = dirs w \<and>
         ui (fst (run_analysis e inp w)) =
           ui w @ [StInfo ''Scraping Reddit posts and comments... This may take some time.'']
           @ error_reports e (parse_list (keywords_input inp)) (parse_list (subreddits_input inp))
           @ [StInfo ''No comments were found matching the specified keywords.'']"
  using assms
  by (simp add: run_analysis_fetch say_def collected_files collected_dirs collected_ui)

theorem no_match_no_output_witness:
  "reaches_fetch (demo_env [post_other]) demo_inputs \<and>
   fst (collected (demo_env [post_other]) demo_inputs empty_world) = [] \<and>
   snd (run_analysis (demo_env [post_other]) demo_inputs empty_world) = None \<and>
   files (fst (run_analysis (demo_env [post_other]) demo_inputs empty_world)) = Map.empty \<and>
   dirs (fst (run_analysis (demo_env [post_other]) demo_inputs empty_world)) = [] \<and>
   ui (fst (run_analysis (demo_env [post_other]) demo_inputs empty_world)) =
     [StInfo ''Scraping Reddit posts and comments... This may take some time.'',
      StInfo ''No comments were found matching the specified keywords.'']"
proof -
  have h1: "reaches_fetch (demo_env [post_other]) demo_inputs" by code_simp
  have h2: "fst (collected (demo_env [post_other]) demo_inputs empty_world) = []" by code_simp
  have h3: "error_reports (demo_env [post_other]) (parse_list (keywords_input demo_inputs))
     (parse_list (subreddits_input demo_inputs)) = []" by code_simp
  from no_match_no_output [OF h1 h2] h1 h2 h3 show ?thesis
    by (simp add: empty_world_def)
qed

text \<open>
  C6. In a run that collects rows and ends without an exception, the page offers one
  archive, named after the folder with MIME type application/zip. Its entries are
  exactly the five named artifacts, in the order written, and the content of each entry
  is the content on disk of the file of that name in the folder.
\<close>

theorem archive_complete:
  assumes "reaches_fetch e inp" and "fst (collected e inp w) \<noteq> []"
    and "snd (run_analysis e inp w) = None"
  shows "\<exists>entries.
     archives (drop (length (ui w)) (ui (fst (run_analysis e inp w)))) =
       [(folder_of e @ ''.zip'', entries, ''application/zip'')] \<and>
     map fst entries =
       [folder_of e @ ''.csv'', folder_of e @ ''.tab'', ''sentiment_analysis_results.csv'',
        ''sentiment_over_time.png'', ''sentiment_distribution.png''] \<and>
     list_all (\<lambda>(n, c). files (fst (run_analysis e inp w)) (path_join (folder_of e) n) = Some c)
       entries"
proof -
  let ?df = "fst (collected e inp w)" and ?w = "snd (collected e inp w)"
  from assms(1,2) have r: "run_analysis e inp w = analyse e inp ?df ?w"
    by (simp add: run_analysis_fetch)
  with assms(3) have "snd (analyse e inp ?df ?w) = None" by simp
  from analyse_result [OF this] obtain sdf where
    u: "ui (fst (analyse e inp ?df ?w)) =
       ui ?w @ [StInfo ''Performing sentiment analysis...''] @ summary (folder_of e) sdf
         @ [StPyplot (time_plot_png e sdf),
            StPyplot (dist_plot_png e (sentiment_counts sdf)),
            StDownloadButton ''Download All Output Files as ZIP'' (entries_of e ?df sdf)
              (folder_of e @ ''.zip'') ''application/zip'']
         @ (if show_raw_data inp then [StDataframe sdf] else [])"
    and f: "files (fst (analyse e inp ?df ?w)) =
       (files ?w)
         (folder_of e @ ''/'' @ folder_of e @ ''.csv'' \<mapsto> to_csv e CHR '','' ?df,
          folder_of e @ ''/'' @ folder_of e @ ''.tab'' \<mapsto> to_csv e (CHR 0x09) ?df,
          folder_of e @ ''/'' @ ''sentiment_analysis_results.csv'' \<mapsto> to_csv_scored e sdf,
          folder_of e @ ''/'' @ ''sentiment_over_time.png'' \<mapsto> time_plot_png e sdf,
          folder_of e @ ''/'' @ ''sentiment_distribution.png'' \<mapsto>
            dist_plot_png e (sentiment_counts sdf))"
    by (elim exE conjE)
  have a: "archives (drop (length (ui w)) (ui (fst (run_analysis e inp w)))) =
       [(folder_of e @ ''.zip'', entries_of e ?df sdf, ''application/zip'')]"
    unfolding r u collected_ui
    by (simp add: archives_append archives_error_reports archives_summary)
  have d: "list_all (\<lambda>(n, c). files (fst (run_analysis e inp w)) (path_join (folder_of e) n) = Some c)
       (entries_of e ?df sdf)"
    unfolding r by (rule entries_on_disk [OF f])
  show ?thesis
    by (rule exI [of _ "entries_of e ?df sdf"]) (intro conjI a d entries_names)
qed

theorem archive_complete_witness:
  "reaches_fetch (demo_env [post_ok]) demo_inputs \<and>
   fst (collected (demo_env [post_ok]) demo_inputs empty_world) \<noteq> [] \<and>
   snd (run_analysis (demo_env [post_ok]) demo_inputs empty_world) = None \<and>
   archives (ui (fst (run_analysis (demo_env [post_ok]) demo_inputs empty_world))) =
     [(''Data_03_09_2024_14_05.zip'',
       [(''Data_03_09_2024_14_05.csv'', '',table''),
        (''Data_03_09_2024_14_05.tab'', CHR 0x09 # ''table''),
        (''sentiment_analysis_results.csv'', ''scored table''),
        (''sentiment_over_time.png'', ''time plot''),
        (''sentiment_distribution.png'', ''bar chart'')],
       ''application/zip'')] \<and>
   (\<exists>entries.
     archives (drop (length (ui empty_world))
        (ui (fst (run_analysis (demo_env [post_ok]) demo_inputs empty_world)))) =
       [(folder_of (demo_env [post_ok]) @ ''.zip'', entries, ''application/zip'')] \<and>
     map fst entries =
       [folder_of (demo_env [post_ok]) @ ''.csv'', folder_of (demo_env [post_ok]) @ ''.tab'',
        ''sentiment_analysis_results.csv'', ''sentiment_over_time.png'',
        ''sentiment_distribution.png''] \<and>
     list_all (\<lambda>(n, c). files (fst (run_analysis (demo_env [post_ok]) demo_inputs empty_world))
                 (path_join (folder_of (demo_env [post_ok])) n) = Some c) entries)"
proof -
  have h1: "reaches_fetch (demo_env [post_ok]) demo_inputs" by code_simp
  have h2: "fst (collected (demo_env [post_ok]) demo_inputs empty_world) \<noteq> []" by code_simp
  have h3: "snd (run_analysis (demo_env [post_ok]) demo_inputs empty_world) = None" by code_simp
  have v: "archives (ui (fst (run_analysis (demo_env [post_ok]) demo_inputs empty_world))) =
     [(''Data_03_09_2024_14_05.zip'',
       [(''Data_03_09_2024_14_05.csv'', '',table''),
        (''Data_03_09_2024_14_05.tab'', CHR 0x09 # ''table''),
        (''sentiment_analysis_results.csv'', ''scored table''),
        (''sentiment_over_time.png'', ''time plot''),
        (''sentiment_distribution.png'', ''bar chart'')],
       ''application/zip'')]"
    by code_simp
  show ?thesis
    by (intro conjI h1 h2 h3 v archive_complete [OF h1 h2 h3])
qed

text \<open>
  C8. When a credential is empty, or the parsed subreddit list is empty, or the parsed
  keyword list is empty, the run adds one error message to the page and changes nothing
  else: no call is made on the Reddit client or the scorer, and no file or folder is
  written. The message is that of the first failing check, in the order credentials,
  subreddits, keywords.
\<close>

theorem missing_input_blocks:
  assumes "client_id inp = [] \<or> client_secret inp = [] \<or> user_agent inp = [] \<or>
           parse_list (subreddits_input inp) = [] \<or> parse_list (keywords_input inp) = []"
  shows "run_analysis e inp w =
     (w\<lparr>ui := ui w @
         [StError
           (if client_id inp = [] \<or> client_secret inp = [] \<or> user_agent inp = []
            then ''Please enter all PRAW credentials.''
            else if parse_list (subreddits_input inp) = []
            then ''Please enter at least one subreddit.''
            else ''Please enter at least one keyword.'')]\<rparr>, None) \<and>
     calls (fst (run_analysis e inp w)) = calls w \<and>
     files (fst (run_analysis e inp w)) = files w \<and>
     dirs (fst (run_analysis e inp w)) = dirs w"
  using assms by (auto simp: run_analysis_def say_def Let_def)

theorem missing_input_blocks_witness:
  "parse_list (subreddits_input (demo_inputs\<lparr>subreddits_input := '' , ''\<rparr>)) = [] \<and>
   run_analysis (demo_env [post_ok]) (demo_inputs\<lparr>subreddits_input := '' , ''\<rparr>) empty_world =
     (empty_world\<lparr>ui := [StError ''Please enter at least one subreddit.'']\<rparr>, None) \<and>
   calls (fst (run_analysis (demo_env [post_ok]) (demo_inputs\<lparr>subreddits_input := '' , ''\<rparr>)
                 empty_world)) = []"
proof -
  have h: "parse_list (subreddits_input (demo_inputs\<lparr>subreddits_input := '' , ''\<rparr>)) = []"
    by code_simp
  have c: "client_id (demo_inputs\<lparr>subreddits_input := '' , ''\<rparr>) \<noteq> [] \<and>
           client_secret (demo_inputs\<lparr>subreddits_input := '' , ''\<rparr>) \<noteq> [] \<and>
           user_agent (demo_inputs\<lparr>subreddits_input := '' , ''\<rparr>) \<noteq> []"
    by (simp add: demo_inputs_def)
  from missing_input_blocks [of "demo_inputs\<lparr>subreddits_input := '' , ''\<rparr>" "demo_env [post_ok]" empty_world]
    h c show ?thesis
    by (simp add: empty_world_def)
qed

text \<open>
  C9. Every row of the classified table carries one of the three labels, and the
  positive, negative and neutral counts that the summary shows add up to the total it
  shows.
\<close>

theorem counts_sum_to_total:
  "list_all (\<lambda>r. sentiment r = ''positive'' \<or> sentiment r = ''negative'' \<or> sentiment r = ''neutral'')
     (map2 add_scores rows ss) \<and>
   pos_count (map2 add_scores rows ss) + neg_count (map2 add_scores rows ss)
     + neu_count (map2 add_scores rows ss) = total_posts (map2 add_scores rows ss)"
proof
  show "list_all (\<lambda>r. sentiment r = ''positive'' \<or> sentiment r = ''negative'' \<or> sentiment r = ''neutral'')
     (map2 add_scores rows ss)"
    using labels_of_table [of rows ss] by (simp add: list_all_iff)
next
  have d: "''positive'' \<noteq> ''negative''" "''positive'' \<noteq> ''neutral''" "''negative'' \<noteq> ''neutral''"
    by simp_all
  have "count_list (map sentiment (map2 add_scores rows ss)) ''positive''
      + count_list (map sentiment (map2 add_scores rows ss)) ''negative''
      + count_list (map sentiment (map2 add_scores rows ss)) ''neutral''
      = length (map sentiment (map2 add_scores rows ss))"
    by (rule count_three [OF d labels_of_table])
  then show "pos_count (map2 add_scores rows ss) + neg_count (map2 add_scores rows ss)
     + neu_count (map2 add_scores rows ss) = total_posts (map2 add_scores rows ss)"
    by (simp add: pos_count_def neg_count_def neu_count_def total_posts_def
        sentiment_counts_def series_get_value_counts)
qed

text \<open>
  C10. The scorer is called on \<open>str\<close> of each text cell, as a string: if the scorer
  accepts every string, scoring succeeds on every table, also on one whose text cells
  are \<open>None\<close>, numbers or \<open>nan\<close>; it yields one score dictionary per row, and every call
  it makes has a string argument.
\<close>

theorem scoring_does_not_raise:
  assumes "\<forall>s. \<exists>r. polarity_scores e (PStr s) = Inr r"
  shows "(\<exists>ss. fst (score_rows e df w) = Inr ss \<and> length ss = length df) \<and>
         calls (snd (score_rows e df w)) =
           calls w @ map (\<lambda>r. PolarityScores (PStr (py_str (row_text r)))) df"
  using score_rows_total [OF assms] score_rows_calls [OF assms] by (rule conjI)

theorem scoring_does_not_raise_witness:
  "(\<forall>s. \<exists>r. polarity_scores (demo_env []) (PStr s) = Inr r) \<and>
   polarity_scores (demo_env []) PNone = Inl (Exn ''AttributeError'') \<and>
   (\<exists>ss. fst (score_rows (demo_env []) mixed_table empty_world) = Inr ss \<and>
      length ss = length mixed_table) \<and>
   calls (snd (score_rows (demo_env []) mixed_table empty_world)) =
     [PolarityScores (PStr ''None''), PolarityScores (PStr ''7'')]"
proof -
  have h: "\<forall>s. \<exists>r. polarity_scores (demo_env []) (PStr s) = Inr r"
    by (simp add: demo_env_def demo_scorer_def)
  have n: "polarity_scores (demo_env []) PNone = Inl (Exn ''AttributeError'')"
    by (simp add: demo_env_def demo_scorer_def)
  have m: "map (\<lambda>r. PolarityScores (PStr (py_str (row_text r)))) mixed_table =
     [PolarityScores (PStr ''None''), PolarityScores (PStr ''7'')]"
    by code_simp
  have c: "calls empty_world = []" by (simp add: empty_world_def)
  from scoring_does_not_raise [OF h, of mixed_table empty_world] h n show ?thesis
    unfolding m c by simp
qed

end
